theory Spec2Isabelle
  imports Complex_Main
begin

section \<open>The store of App.js\<close>

text \<open>
  The file \<^verbatim>\<open>src/App.js\<close> holds a class \<^verbatim>\<open>Store\<close> (lines 4-28), one global instance
  of it (lines 30-38), and five action functions that edit the instance through
  \<^verbatim>\<open>store.update\<close> (lines 40-108). Snapshots of the state are JavaScript objects, and the
  store compares them by reference (\<^verbatim>\<open>newState !== this.state\<close>). The model therefore keeps
  the snapshots in an object memory: a list of snapshot values, a reference being an index
  into it. Allocating an object appends to the list; nothing ever removes an entry.
\<close>

type_synonym ref = nat

subsection \<open>Drafts\<close>

text \<open>
  Modelled from the spec: the draft that \<^verbatim>\<open>produce\<close> of the package \<^verbatim>\<open>immer\<close> (line 2,
  not part of the repository) hands to the updater, which the spec calls ``a temporary
  mutable view used to describe an edit''. A draft remembers the object it was made from
  (\<open>base\<close>), whether a write has changed it (\<open>modified\<close>), and the edited value
  (\<open>copy\<close>), which is the base value until the first change.
\<close>

record 's draft =
  base :: 's
  modified :: bool
  copy :: 's

definition createDraft :: "'s \<Rightarrow> 's draft" where
  "createDraft b = \<lparr>base = b, modified = False, copy = b\<rparr>"

text \<open>
  Modelled from the spec: a write \<^verbatim>\<open>draft.p = v\<close> through a draft of \<^verbatim>\<open>immer\<close>. The
  spec says that no new snapshot is produced when nothing changed: on a draft that is not
  yet modified the write compares \<open>v\<close> with the
  base's \<open>p\<close> (by value for booleans, numbers and strings, by reference for objects)
  and does nothing when they are the same; otherwise it marks the draft modified and stores
  \<open>v\<close>. The outcome of that comparison is \<open>same\<close>; \<open>write\<close> is the store of
  \<open>v\<close> into field \<open>p\<close>.
\<close>

definition assign :: "bool \<Rightarrow> ('s \<Rightarrow> 's) \<Rightarrow> 's draft \<Rightarrow> 's draft" where
  "assign same write d =
     (if \<not> modified d \<and> same then d
      else d\<lparr>modified := True, copy := write (copy d)\<rparr>)"

text \<open>
  Modelled from the spec: \<^verbatim>\<open>produce\<close> is imported from the package \<^verbatim>\<open>immer\<close> (line 2),
  whose code is not part of the repository. The spec describes it as the helper that
  ``given a mutable-looking editing function and a current state snapshot, produces a new
  snapshot reflecting the edits, leaving the original untouched unless nothing changed (in
  which case no new snapshot is produced)''. The recipe that \<^verbatim>\<open>update\<close> passes returns
  nothing (\<^verbatim>\<open>draft => { updater(draft); }\<close>), so the result is the draft's: the base
  reference when the draft is unmodified, a newly allocated object holding the edited value
  otherwise.
\<close>

definition produce :: "'s list \<Rightarrow> ref \<Rightarrow> ('s draft \<Rightarrow> 's draft) \<Rightarrow> 's list \<times> ref" where
  "produce h b recipe =
     (let d = recipe (createDraft (h ! b))
      in if modified d then (h @ [copy d], length h) else (h, b))"

subsection \<open>The class Store\<close>

text \<open>
  \<open>state\<close> and \<open>listeners\<close> are the two fields of the class. \<open>listeners\<close> is a
  JavaScript \<^verbatim>\<open>Set\<close>, which iterates in insertion order: a list without repetitions.
  \<open>heap\<close> is the object memory holding the snapshots, and \<open>calls\<close> is the trace of
  listener invocations \<^verbatim>\<open>fn(this.state)\<close> made so far, oldest first: the listener and the
  snapshot reference it was given. A listener is identified by a value of type \<open>'l\<close>.
  In the definitions of this subsection a listener, when invoked, makes no call to the
  store, as the only listener of the file does (line 201 calls \<^verbatim>\<open>setState\<close> of a
  component); listeners that call the store back are the subject of the next subsection.
\<close>

record ('s, 'l) Store =
  heap :: "'s list"
  state :: ref
  listeners :: "'l list"
  calls :: "('l \<times> ref) list"

definition new_Store :: "'s \<Rightarrow> ('s, 'l) Store" where
  "new_Store initialState = \<lparr>heap = [initialState], state = 0, listeners = [], calls = []\<rparr>"

definition content :: "('s, 'l) Store \<Rightarrow> 's" where
  "content st = heap st ! state st"

definition subscribe :: "'l \<Rightarrow> ('s, 'l) Store \<Rightarrow> ('s, 'l) Store" where
  "subscribe listener st =
     st\<lparr>listeners := (if listener \<in> set (listeners st) then listeners st
                      else listeners st @ [listener])\<rparr>"

text \<open>The function that \<^verbatim>\<open>subscribe(listener)\<close> returns: \<^verbatim>\<open>() => this.listeners.delete(listener)\<close>.\<close>

definition unsubscribe :: "'l \<Rightarrow> ('s, 'l) Store \<Rightarrow> ('s, 'l) Store" where
  "unsubscribe listener st = st\<lparr>listeners := removeAll listener (listeners st)\<rparr>"

text \<open>
  Line 16 for listeners that make no call to the store: the \<^verbatim>\<open>Set\<close> and \<^verbatim>\<open>this.state\<close>
  are then the same throughout the walk, and every listener is invoked with that state.
\<close>

definition notify :: "('s, 'l) Store \<Rightarrow> ('s, 'l) Store" where
  "notify st = st\<lparr>calls := calls st @ map (\<lambda>fn. (fn, state st)) (listeners st)\<rparr>"

text \<open>
  \<^verbatim>\<open>update\<close>, lines 19-27. The test is \<^verbatim>\<open>newState && newState !== this.state\<close>; a
  reference to an object is truthy, so only the comparison of references remains.
\<close>

definition update :: "('s draft \<Rightarrow> 's draft) \<Rightarrow> ('s, 'l) Store \<Rightarrow> ('s, 'l) Store" where
  "update updater st =
     (let (h, newState) = produce (heap st) (state st) updater
      in if newState \<noteq> state st then notify (st\<lparr>heap := h, state := newState\<rparr>)
         else st\<lparr>heap := h\<rparr>)"

text \<open>The three operations of the class, for speaking about a sequence of calls.\<close>

datatype ('s, 'l) store_call =
  Subscribe 'l
| Unsubscribe 'l
| Update "'s draft \<Rightarrow> 's draft"

fun perform :: "('s, 'l) store_call \<Rightarrow> ('s, 'l) Store \<Rightarrow> ('s, 'l) Store" where
  "perform (Subscribe l) st = subscribe l st"
| "perform (Unsubscribe l) st = unsubscribe l st"
| "perform (Update u) st = update u st"

subsection \<open>Listeners that call the store\<close>

text \<open>
  A listener is a JavaScript function, and nothing keeps it from calling \<^verbatim>\<open>subscribe\<close>,
  an unsubscribe function or \<^verbatim>\<open>update\<close> of the store while it is being notified. Line 16,
  \<^verbatim>\<open>this.listeners.forEach(fn => fn(this.state))\<close>, walks the \<^verbatim>\<open>Set\<close> itself, not a copy
  of it, and reads \<^verbatim>\<open>this.state\<close> anew for every listener. The definitions \<open>notify\<close> and
  \<open>update\<close> above are what lines 15-27 do when no listener makes such a call (lemma
  \<open>update_live_agrees\<close> below); the definitions of this subsection are lines 10-27 for
  listeners of any kind.

  What a listener does to the store is given by \<open>react\<close>: the calls it makes, in order,
  when invoked with a snapshot of the given value.

  The \<^verbatim>\<open>Set\<close> is the list of its entries in insertion order, as the language defines it:
  \<^verbatim>\<open>delete\<close> empties the entry of the listener (\<open>None\<close>) and leaves its place, \<^verbatim>\<open>add\<close>
  appends an entry unless the listener has one, and \<^verbatim>\<open>forEach\<close> goes through the places
  by index up to the end the list has by then, skipping the empty ones. So a listener
  deleted before its turn is not called, and one added during the walk is called.
\<close>

type_synonym ('s, 'l) reactions = "'l \<Rightarrow> 's \<Rightarrow> ('s, 'l) store_call list"

record ('s, 'l) Store_live =
  heap_live :: "'s list"
  state_live :: ref
  entries :: "'l option list"
  calls_live :: "('l \<times> ref) list"


fun present :: "'l option list \<Rightarrow> 'l list" where
  "present [] = []"
| "present (None # es) = present es"
| "present (Some l # es) = l # present es"

text \<open>The listeners subscribed at the moment, in the order of their subscription.\<close>

definition subscribed :: "('s, 'l) Store_live \<Rightarrow> 'l list" where
  "subscribed st = present (entries st)"

definition subscribe_live :: "'l \<Rightarrow> ('s, 'l) Store_live \<Rightarrow> ('s, 'l) Store_live" where
  "subscribe_live listener st =
     st\<lparr>entries := (if Some listener \<in> set (entries st) then entries st
                    else entries st @ [Some listener])\<rparr>"

definition unsubscribe_live :: "'l \<Rightarrow> ('s, 'l) Store_live \<Rightarrow> ('s, 'l) Store_live" where
  "unsubscribe_live listener st =
     st\<lparr>entries := map (\<lambda>e. if e = Some listener then None else e) (entries st)\<rparr>"

text \<open>
  \<open>notify_live n react i st\<close> is the walk of line 16 from place \<open>i\<close> on,
  \<open>update_live\<close> is lines 19-27, and \<open>react_live\<close> runs the calls a listener makes.
  Listeners that keep updating the store from inside a notification never return; the
  first argument bounds the number of steps, and \<open>None\<close> says that it did not suffice.
\<close>

fun notify_live ::
    "nat \<Rightarrow> ('s, 'l) reactions \<Rightarrow> nat \<Rightarrow> ('s, 'l) Store_live \<Rightarrow> ('s, 'l) Store_live option"
  and update_live ::
    "nat \<Rightarrow> ('s, 'l) reactions \<Rightarrow> ('s draft \<Rightarrow> 's draft) \<Rightarrow> ('s, 'l) Store_live
       \<Rightarrow> ('s, 'l) Store_live option"
  and react_live ::
    "nat \<Rightarrow> ('s, 'l) reactions \<Rightarrow> ('s, 'l) store_call list \<Rightarrow> ('s, 'l) Store_live
       \<Rightarrow> ('s, 'l) Store_live option"
where
  "notify_live 0 react i st = None"
| "notify_live (Suc n) react i st =
     (if length (entries st) \<le> i then Some st
      else case entries st ! i of
             None \<Rightarrow> notify_live n react (Suc i) st
           | Some fn \<Rightarrow>
               (case react_live n react (react fn (heap_live st ! state_live st))
                       (st\<lparr>calls_live := calls_live st @ [(fn, state_live st)]\<rparr>) of
                  None \<Rightarrow> None
                | Some st' \<Rightarrow> notify_live n react (Suc i) st'))"
| "update_live 0 react updater st = None"
| "update_live (Suc n) react updater st =
     (let (h, newState) = produce (heap_live st) (state_live st) updater
      in if newState \<noteq> state_live st
         then notify_live n react 0 (st\<lparr>heap_live := h, state_live := newState\<rparr>)
         else Some (st\<lparr>heap_live := h\<rparr>))"
| "react_live 0 react cs st = None"
| "react_live (Suc n) react [] st = Some st"
| "react_live (Suc n) react (Subscribe l # cs) st = react_live n react cs (subscribe_live l st)"
| "react_live (Suc n) react (Unsubscribe l # cs) st =
     react_live n react cs (unsubscribe_live l st)"
| "react_live (Suc n) react (Update u # cs) st =
     (case update_live n react u st of
        None \<Rightarrow> None
      | Some st' \<Rightarrow> react_live n react cs st')"

text \<open>The store of the first definitions that a store of this subsection stands for.\<close>

definition abstract :: "('s, 'l) Store_live \<Rightarrow> ('s, 'l) Store" where
  "abstract st = \<lparr>heap = heap_live st, state = state_live st, listeners = subscribed st,
                  calls = calls_live st\<rparr>"

section \<open>The application state and its actions\<close>

text \<open>
  An id is a result of \<^verbatim>\<open>Math.random()\<close>, a double in the interval from 0 (included) to
  1 (excluded). The code only compares ids with \<^verbatim>\<open>===\<close> and tests them for truthiness;
  on the numbers that \<^verbatim>\<open>Math.random()\<close> returns both agree with equality and with being
  nonzero on the rational number the double denotes. An absent \<^verbatim>\<open>id\<close> is \<open>None\<close>.
\<close>

type_synonym number = rat

record todo =
  id' :: "number option"
  title :: string
  done' :: bool

record app_state =
  saving :: bool
  loading :: bool
  todo :: todo
  todos :: "todo list"

text \<open>Truthiness of \<^verbatim>\<open>todo.id\<close>: \<^verbatim>\<open>undefined\<close> and \<^verbatim>\<open>0\<close> are falsy.\<close>

fun truthy :: "number option \<Rightarrow> bool" where
  "truthy None = False"
| "truthy (Some x) = (x \<noteq> 0)"

text \<open>The global \<^verbatim>\<open>store\<close>, lines 30-38.\<close>

definition store :: "(app_state, 'l) Store" where
  "store = new_Store \<lparr>saving = False, loading = False,
                       todo = \<lparr>id' = None, title = '''', done' = False\<rparr>, todos = []\<rparr>"

text \<open>
  A promise returned by an action: \<open>Resolved\<close> once its \<^verbatim>\<open>resolve\<close> has been called.
  Each of \<^verbatim>\<open>fetchTodos\<close>, \<^verbatim>\<open>saveTodo\<close> and \<^verbatim>\<open>removeTodo\<close> runs in two steps: the part
  up to the \<^verbatim>\<open>return\<close> (suffix \<open>_start\<close>), and the timer's callback one second later
  (suffix \<open>_timeout\<close>), which also tells the state of the returned promise afterwards.
  Other actions may run between the two. The results of \<^verbatim>\<open>Math.random()\<close> are arguments
  of the callback.
\<close>

datatype promise = Pending | Resolved

definition fetchTodos_start :: "(app_state, 'l) Store \<Rightarrow> (app_state, 'l) Store" where
  "fetchTodos_start st =
     update (\<lambda>draft. assign (loading (base draft) = True) (\<lambda>s. s\<lparr>loading := True\<rparr>) draft) st"

definition fetchTodos_timeout ::
  "number \<Rightarrow> number \<Rightarrow> number \<Rightarrow> (app_state, 'l) Store \<Rightarrow> (app_state, 'l) Store \<times> promise" where
  "fetchTodos_timeout r1 r2 r3 st =
     (update (\<lambda>draft.
        let d1 = assign False (\<lambda>s. s\<lparr>todos :=
                   [\<lparr>id' = Some r1, title = ''Hello...'', done' = False\<rparr>,
                    \<lparr>id' = Some r2, title = ''World...'', done' = False\<rparr>,
                    \<lparr>id' = Some r3, title = ''Hello World...'', done' = True\<rparr>]\<rparr>) draft
        in assign (loading (base d1) = False) (\<lambda>s. s\<lparr>loading := False\<rparr>) d1) st,
      Resolved)"

definition saveTodo_start :: "(app_state, 'l) Store \<Rightarrow> (app_state, 'l) Store" where
  "saveTodo_start st =
     update (\<lambda>draft. assign (saving (base draft) = True) (\<lambda>s. s\<lparr>saving := True\<rparr>) draft) st"

text \<open>
  Lines 63-74. \<^verbatim>\<open>const todo = draft.todo\<close> is itself a draft, of the todo being edited:
  \<^verbatim>\<open>todo.id = Math.random()\<close> writes through it, and \<^verbatim>\<open>push(todo)\<close> appends that same
  object, so the new entry carries the new id. A new array or object literal is never the
  same as what the base holds.
\<close>

definition saveTodo_timeout ::
  "number \<Rightarrow> (app_state, 'l) Store \<Rightarrow> (app_state, 'l) Store \<times> promise" where
  "saveTodo_timeout r st =
     (update (\<lambda>draft.
        let d1 =
              (if \<not> truthy (id' (todo (copy draft))) then
                 let d' = assign (id' (todo (base draft)) = Some r)
                            (\<lambda>s. s\<lparr>todo := (todo s)\<lparr>id' := Some r\<rparr>\<rparr>) draft
                 in assign False (\<lambda>s. s\<lparr>todos := todos s @ [todo s]\<rparr>) d'
               else
                 assign False
                   (\<lambda>s. s\<lparr>todos := map (\<lambda>item. if id' item = id' (todo s) then todo s else item)
                                       (todos s)\<rparr>) draft);
            d2 = assign False (\<lambda>s. s\<lparr>todo := \<lparr>id' = None, title = '''', done' = False\<rparr>\<rparr>) d1
        in assign (saving (base d2) = False) (\<lambda>s. s\<lparr>saving := False\<rparr>) d2) st,
      Resolved)"

text \<open>
  The argument of \<^verbatim>\<open>updateTodo\<close>: an object with some of the fields of a todo, spread over
  the todo being edited (\<^verbatim>\<open>{ ...draft.todo, ...todo }\<close>). \<open>None\<close> is a field the object
  does not have.
\<close>

record todo_partial =
  id_p :: "number option option"
  title_p :: "string option"
  done_p :: "bool option"

definition spread :: "todo \<Rightarrow> todo_partial \<Rightarrow> todo" where
  "spread t p =
     \<lparr>id' = (case id_p p of None \<Rightarrow> id' t | Some i \<Rightarrow> i),
      title = (case title_p p of None \<Rightarrow> title t | Some x \<Rightarrow> x),
      done' = (case done_p p of None \<Rightarrow> done' t | Some b \<Rightarrow> b)\<rparr>"

definition updateTodo :: "todo_partial \<Rightarrow> (app_state, 'l) Store \<Rightarrow> (app_state, 'l) Store" where
  "updateTodo p st =
     update (\<lambda>draft.
       let current = spread (todo (copy draft)) p;
           d1 = assign False (\<lambda>s. s\<lparr>todo := current\<rparr>) draft
       in if truthy (id' current) then
            assign False
              (\<lambda>s. s\<lparr>todos := map (\<lambda>item. if id' item = id' current then current else item)
                                  (todos s)\<rparr>) d1
          else d1) st"

definition removeTodo_start :: "(app_state, 'l) Store \<Rightarrow> (app_state, 'l) Store" where
  "removeTodo_start st =
     update (\<lambda>draft. assign (saving (base draft) = True) (\<lambda>s. s\<lparr>saving := True\<rparr>) draft) st"

text \<open>Lines 92-100: the callback updates the store and never calls \<^verbatim>\<open>resolve\<close>.\<close>

definition removeTodo_timeout ::
  "todo \<Rightarrow> (app_state, 'l) Store \<Rightarrow> (app_state, 'l) Store \<times> promise" where
  "removeTodo_timeout t st =
     (update (\<lambda>draft.
        let d1 = assign False
                   (\<lambda>s. s\<lparr>todos := filter (\<lambda>item. id' item \<noteq> id' t) (todos s)\<rparr>) draft;
            d2 = assign False (\<lambda>s. s\<lparr>todo := \<lparr>id' = None, title = '''', done' = False\<rparr>\<rparr>) d1
        in assign (saving (base d2) = False) (\<lambda>s. s\<lparr>saving := False\<rparr>) d2) st,
      Pending)"

text \<open>
  \<^verbatim>\<open>selectTodo(todo)\<close> writes an object that exists already. The todos are kept by value
  here, so whether the argument is the very object that \<^verbatim>\<open>state.todo\<close> holds is the
  argument \<open>same\<close>; when it is, \<open>t\<close> is the value of \<^verbatim>\<open>state.todo\<close> and the write
  changes nothing.
\<close>

definition selectTodo :: "bool \<Rightarrow> todo \<Rightarrow> (app_state, 'l) Store \<Rightarrow> (app_state, 'l) Store" where
  "selectTodo same t st = update (\<lambda>draft. assign same (\<lambda>s. s\<lparr>todo := t\<rparr>) draft) st"

subsection \<open>States the actions lead to\<close>

text \<open>
  The entries of \<open>todos\<close> whose id is the id of the todo being edited, compared as the
  code compares them (\<^verbatim>\<open>item.id === todo.id\<close>).
\<close>

definition sharing :: "app_state \<Rightarrow> todo list" where
  "sharing s = filter (\<lambda>item. id' item = id' (todo s)) (todos s)"

text \<open>
  The stores that the actions and the operations of the class lead to from the global
  \<open>store\<close>, when every id that \<^verbatim>\<open>Math.random()\<close> returns is new: the three ids of a
  fetch differ from each other, and the id given to a saved new todo is not the id of an
  entry of \<open>todos\<close>. A timer's callback may run in any state (more than the program
  allows, since it runs only after its action has started).
\<close>

inductive reachable :: "(app_state, 'l) Store \<Rightarrow> bool" where
  initial: "reachable store"
| subscribed: "reachable st \<Longrightarrow> reachable (subscribe l st)"
| unsubscribed: "reachable st \<Longrightarrow> reachable (unsubscribe l st)"
| fetch_started: "reachable st \<Longrightarrow> reachable (fetchTodos_start st)"
| fetched: "reachable st \<Longrightarrow> distinct [r1, r2, r3] \<Longrightarrow>
            reachable (fst (fetchTodos_timeout r1 r2 r3 st))"
| save_started: "reachable st \<Longrightarrow> reachable (saveTodo_start st)"
| saved_new: "reachable st \<Longrightarrow> \<not> truthy (id' (todo (content st))) \<Longrightarrow>
              Some r \<notin> set (map id' (todos (content st))) \<Longrightarrow>
              reachable (fst (saveTodo_timeout r st))"
| saved_existing: "reachable st \<Longrightarrow> truthy (id' (todo (content st))) \<Longrightarrow>
              reachable (fst (saveTodo_timeout r st))"
| updated: "reachable st \<Longrightarrow> reachable (updateTodo p st)"
| remove_started: "reachable st \<Longrightarrow> reachable (removeTodo_start st)"
| removed: "reachable st \<Longrightarrow> reachable (fst (removeTodo_timeout t st))"
| selected: "reachable st \<Longrightarrow> reachable (selectTodo same t st)"

text \<open>
  Three runs of the program, from the global store. In each the list is fetched and an
  entry of it is then selected for editing, as a click on the entry does (line 125). In
  \<open>editing_store\<close> the ids are three different nonzero numbers. In \<open>zero_id_store\<close>
  the first \<^verbatim>\<open>Math.random()\<close> of the fetch returned 0. In \<open>repeated_id_store\<close> a new
  todo was saved after the fetch, and \<^verbatim>\<open>Math.random()\<close> returned for it the id of the
  first fetched entry.
\<close>

definition editing_store :: "(app_state, unit) Store" where
  "editing_store =
     selectTodo False \<lparr>id' = Some (1/4), title = ''World...'', done' = False\<rparr>
       (fst (fetchTodos_timeout (1/8) (1/4) (1/2) (fetchTodos_start store)))"

definition zero_id_store :: "(app_state, unit) Store" where
  "zero_id_store =
     selectTodo False \<lparr>id' = Some 0, title = ''Hello...'', done' = False\<rparr>
       (fst (fetchTodos_timeout 0 (1/4) (1/2) (fetchTodos_start store)))"

definition repeated_id_store :: "(app_state, unit) Store" where
  "repeated_id_store =
     selectTodo False \<lparr>id' = Some (1/8), title = ''Hello...'', done' = False\<rparr>
       (fst (saveTodo_timeout (1/8) (saveTodo_start
         (fst (fetchTodos_timeout (1/8) (1/4) (1/2) (fetchTodos_start store))))))"

section \<open>Properties of the store\<close>

subsection \<open>What one update does\<close>

lemma produce_cases:
  "produce h b u =
     (if modified (u (createDraft (h ! b)))
      then (h @ [copy (u (createDraft (h ! b)))], length h) else (h, b))"
  by (simp add: produce_def Let_def)

lemma content_update:
  "content (update u st) =
     (if modified (u (createDraft (content st))) then copy (u (createDraft (content st)))
      else content st)"
  by (auto simp add: content_def update_def produce_cases notify_def nth_append)

lemma listeners_update: "listeners (update u st) = listeners st"
  by (simp add: update_def produce_cases notify_def)

lemma state_update_valid:
  "state st < length (heap st) \<Longrightarrow> state (update u st) < length (heap (update u st))"
  by (simp add: update_def produce_cases notify_def)

lemma listeners_subscribe_distinct:
  "distinct (listeners st) \<Longrightarrow> distinct (listeners (subscribe l st))"
  by (simp add: subscribe_def)

text \<open>
  Claim C1. In every sequence of calls of \<open>update\<close>, a call whose produced snapshot is the
  very snapshot the store holds (the same reference) invokes no listener: the trace of
  invocations after the call is the trace before it. The store \<open>fold update us st\<close> is the
  one reached by the earlier calls \<open>us\<close> of the sequence.
\<close>

theorem update_unchanged_no_call:
  "snd (produce (heap (fold update us st)) (state (fold update us st)) u)
     = state (fold update us st)
   \<Longrightarrow> calls (update u (fold update us st)) = calls (fold update us st)"
  by (simp add: update_def split_def)

text \<open>
  An instance: the global store with one listener; the first call sets \<open>loading\<close> and
  notifies the listener, the second writes the value that is there already and notifies
  nobody.
\<close>

theorem update_unchanged_no_call_witness:
  "snd (produce (heap (fold update [\<lambda>d. assign (loading (base d)) (\<lambda>s. s\<lparr>loading := True\<rparr>) d]
                         (subscribe (1::nat) store)))
                (state (fold update [\<lambda>d. assign (loading (base d)) (\<lambda>s. s\<lparr>loading := True\<rparr>) d]
                         (subscribe (1::nat) store)))
                (\<lambda>d. assign (loading (base d)) (\<lambda>s. s\<lparr>loading := True\<rparr>) d))
     = state (fold update [\<lambda>d. assign (loading (base d)) (\<lambda>s. s\<lparr>loading := True\<rparr>) d]
                (subscribe (1::nat) store)) \<and>
   calls (update (\<lambda>d. assign (loading (base d)) (\<lambda>s. s\<lparr>loading := True\<rparr>) d)
            (fold update [\<lambda>d. assign (loading (base d)) (\<lambda>s. s\<lparr>loading := True\<rparr>) d]
               (subscribe (1::nat) store)))
     = [(1, 1)]"
  using update_unchanged_no_call
    [of "[\<lambda>d. assign (loading (base d)) (\<lambda>s. s\<lparr>loading := True\<rparr>) d]"
        "subscribe (1::nat) store"
        "\<lambda>d. assign (loading (base d)) (\<lambda>s. s\<lparr>loading := True\<rparr>) d"]
  by (simp add: update_def produce_def createDraft_def assign_def store_def new_Store_def
      subscribe_def notify_def)

text \<open>
  Claim C3. \<open>update\<close> never changes the snapshot the store held before the call: for every
  updater the object at the old reference, and every other object allocated before, keeps
  its value; and when the updater's writes change nothing, no object is allocated and the
  store keeps its reference.
\<close>

theorem update_keeps_prior_snapshot:
  "state st < length (heap st) \<Longrightarrow>
     heap (update u st) ! state st = heap st ! state st \<and>
     take (length (heap st)) (heap (update u st)) = heap st \<and>
     (\<not> modified (u (createDraft (content st))) \<longrightarrow>
        heap (update u st) = heap st \<and> state (update u st) = state st)"
  by (simp add: update_def produce_cases notify_def content_def nth_append)

text \<open>
  An instance on the global store: setting \<open>loading\<close> leaves the initial snapshot as it
  was, and writing \<open>false\<close> over \<open>false\<close> allocates nothing.
\<close>

theorem update_keeps_prior_snapshot_witness:
  "state (store :: (app_state, nat) Store) < length (heap (store :: (app_state, nat) Store)) \<and>
   heap (update (\<lambda>d. assign (loading (base d)) (\<lambda>s. s\<lparr>loading := True\<rparr>) d)
           (store :: (app_state, nat) Store)) ! 0
     = \<lparr>saving = False, loading = False,
        todo = \<lparr>id' = None, title = '''', done' = False\<rparr>, todos = []\<rparr> \<and>
   heap (update (\<lambda>d. assign (\<not> loading (base d)) (\<lambda>s. s\<lparr>loading := False\<rparr>) d)
           (store :: (app_state, nat) Store))
     = heap (store :: (app_state, nat) Store)"
  using update_keeps_prior_snapshot
    [of "store :: (app_state, nat) Store"
        "\<lambda>d. assign (loading (base d)) (\<lambda>s. s\<lparr>loading := True\<rparr>) d"]
    update_keeps_prior_snapshot
    [of "store :: (app_state, nat) Store"
        "\<lambda>d. assign (\<not> loading (base d)) (\<lambda>s. s\<lparr>loading := False\<rparr>) d"]
  by (simp add: content_def createDraft_def assign_def store_def new_Store_def)

subsection \<open>Unsubscribing\<close>

lemma calls_update_absent:
  "l \<notin> set (listeners st) \<Longrightarrow>
     filter (\<lambda>c. fst c = l) (calls (update u st)) = filter (\<lambda>c. fst c = l) (calls st)"
  by (auto simp add: update_def produce_cases notify_def filter_empty_conv)

lemma perform_absent:
  "l \<notin> set (listeners st) \<Longrightarrow> c \<noteq> Subscribe l \<Longrightarrow> l \<notin> set (listeners (perform c st))"
  by (cases c) (auto simp add: subscribe_def unsubscribe_def listeners_update)

lemma perform_calls_absent:
  "l \<notin> set (listeners st) \<Longrightarrow>
     filter (\<lambda>c. fst c = l) (calls (perform c st)) = filter (\<lambda>c. fst c = l) (calls st)"
  by (cases c) (simp_all add: subscribe_def unsubscribe_def calls_update_absent)

lemma run_calls_absent:
  "l \<notin> set (listeners st) \<Longrightarrow> Subscribe l \<notin> set cs \<Longrightarrow>
     filter (\<lambda>c. fst c = l) (calls (fold perform cs st)) = filter (\<lambda>c. fst c = l) (calls st)"
proof (induction cs arbitrary: st)
  case Nil
  show ?case by simp
next
  case (Cons c cs)
  from Cons.prems have c: "c \<noteq> Subscribe l" and cs: "Subscribe l \<notin> set cs" by auto
  have absent: "l \<notin> set (listeners (perform c st))"
    using Cons.prems(1) c by (rule perform_absent)
  have "filter (\<lambda>c. fst c = l) (calls (fold perform (c # cs) st))
        = filter (\<lambda>c. fst c = l) (calls (perform c st))"
    using Cons.IH [OF absent cs] by simp
  also have "\<dots> = filter (\<lambda>c. fst c = l) (calls st)"
    using Cons.prems(1) by (rule perform_calls_absent)
  finally show ?case .
qed

text \<open>
  Claim C10. Once the function returned by \<open>subscribe(listener)\<close> has been called, no later
  update of the store invokes that listener, as long as it is not subscribed again: after
  any sequence \<open>cs\<close> of updates, subscriptions of other listeners and unsubscriptions, the
  invocations of the listener in the trace are those made before.
\<close>

theorem unsubscribed_listener_not_called:
  "Subscribe l \<notin> set cs \<Longrightarrow>
     filter (\<lambda>c. fst c = l) (calls (fold perform cs (unsubscribe l st)))
       = filter (\<lambda>c. fst c = l) (calls st)"
proof -
  assume cs: "Subscribe l \<notin> set cs"
  have "l \<notin> set (listeners (unsubscribe l st))" by (simp add: unsubscribe_def)
  from run_calls_absent [OF this cs] show ?thesis by (simp add: unsubscribe_def)
qed

text \<open>
  An instance: listeners 1 and 2 subscribe, 1 unsubscribes, and an update that sets
  \<open>loading\<close> invokes listener 2 only.
\<close>

theorem unsubscribed_listener_not_called_witness:
  "Subscribe (1::nat) \<notin>
     set [Update (\<lambda>d. assign (loading (base d)) (\<lambda>s. s\<lparr>loading := True\<rparr>) d), Subscribe 2] \<and>
   calls (fold perform
            [Update (\<lambda>d. assign (loading (base d)) (\<lambda>s. s\<lparr>loading := True\<rparr>) d), Subscribe 2]
            (unsubscribe 1 (subscribe 2 (subscribe (1::nat) store)))) = [(2, 1)] \<and>
   filter (\<lambda>c. fst c = 1)
     (calls (fold perform
               [Update (\<lambda>d. assign (loading (base d)) (\<lambda>s. s\<lparr>loading := True\<rparr>) d), Subscribe 2]
               (unsubscribe 1 (subscribe 2 (subscribe (1::nat) store))))) = []"
  using unsubscribed_listener_not_called
    [of 1 "[Update (\<lambda>d. assign (loading (base d)) (\<lambda>s. s\<lparr>loading := True\<rparr>) d), Subscribe 2]"
        "subscribe 2 (subscribe (1::nat) store)"]
  by (simp add: update_def produce_def createDraft_def assign_def store_def new_Store_def
      subscribe_def unsubscribe_def notify_def)

subsection \<open>Notification, with listeners of any kind\<close>

lemma present_append [simp]: "present (es @ fs) = present es @ present fs"
  by (induction es rule: present.induct) simp_all

lemma present_map_Some [simp]: "present (map Some ls) = ls"
  by (induction ls) simp_all

lemma Some_in_entries: "Some l \<in> set es \<longleftrightarrow> l \<in> set (present es)"
  by (induction es rule: present.induct) auto

lemma present_delete:
  "present (map (\<lambda>e. if e = Some l then None else e) es) = removeAll l (present es)"
  by (induction es rule: present.induct) auto

lemma present_drop:
  "i < length es \<Longrightarrow> present (drop i es) =
     (case es ! i of None \<Rightarrow> [] | Some l \<Rightarrow> [l]) @ present (drop (Suc i) es)"
  by (simp add: Cons_nth_drop_Suc [symmetric] split: option.splits)

lemma abstract_subscribe: "abstract (subscribe_live l st) = subscribe l (abstract st)"
  by (simp add: abstract_def subscribe_live_def subscribe_def subscribed_def Some_in_entries)

lemma abstract_unsubscribe: "abstract (unsubscribe_live l st) = unsubscribe l (abstract st)"
  by (simp add: abstract_def unsubscribe_live_def unsubscribe_def subscribed_def present_delete)

text \<open>
  The walk over the listeners from place \<open>i\<close> on, when none of those still to be called
  makes a call to the store: each is invoked once, in order, with the state of the store.
\<close>

lemma notify_live_inert:
  "\<forall>fn \<in> set (present (drop i (entries st))). react fn (heap_live st ! state_live st) = [] \<Longrightarrow>
   length (entries st) - i < n \<Longrightarrow>
   notify_live n react i st =
     Some (st\<lparr>calls_live := calls_live st @
                 map (\<lambda>fn. (fn, state_live st)) (present (drop i (entries st)))\<rparr>)"
proof (induction n arbitrary: i st)
  case 0
  then show ?case by simp
next
  case (Suc n)
  show ?case
  proof (cases "length (entries st) \<le> i")
    case True
    then show ?thesis by simp
  next
    case False
    then have i: "i < length (entries st)" by simp
    with Suc.prems(2) have n: "length (entries st) - Suc i < n" by arith
    then obtain m where m: "n = Suc m" by (cases n) auto
    show ?thesis
    proof (cases "entries st ! i")
      case None
      have "\<forall>fn \<in> set (present (drop (Suc i) (entries st))).
              react fn (heap_live st ! state_live st) = []"
        using Suc.prems(1) i by (simp add: present_drop)
      then have "notify_live n react (Suc i) st =
          Some (st\<lparr>calls_live := calls_live st @
                 map (\<lambda>fn. (fn, state_live st)) (present (drop (Suc i) (entries st)))\<rparr>)"
        using n by (intro Suc.IH)
      with None i False show ?thesis
        by (simp add: present_drop)
    next
      case (Some fn)
      let ?st1 = "st\<lparr>calls_live := calls_live st @ [(fn, state_live st)]\<rparr>"
      have fn: "react fn (heap_live st ! state_live st) = []"
        using Suc.prems(1) i Some by (simp add: present_drop)
      have rest: "\<forall>fn \<in> set (present (drop (Suc i) (entries ?st1))).
              react fn (heap_live ?st1 ! state_live ?st1) = []"
        using Suc.prems(1) i by (simp add: present_drop)
      have n1: "length (entries ?st1) - Suc i < n" using n by simp
      have "notify_live n react (Suc i) ?st1 =
          Some (?st1\<lparr>calls_live := calls_live ?st1 @
                 map (\<lambda>fn. (fn, state_live ?st1)) (present (drop (Suc i) (entries ?st1)))\<rparr>)"
        using rest n1 by (intro Suc.IH)
      with Some i False fn m show ?thesis
        by (simp add: present_drop)
    qed
  qed
qed

lemma update_live_inert:
  assumes "snd (produce (heap_live st) (state_live st) u) \<noteq> state_live st"
    and "\<forall>fn \<in> set (subscribed st).
           react fn (fst (produce (heap_live st) (state_live st) u)
                       ! snd (produce (heap_live st) (state_live st) u)) = []"
    and "length (entries st) + 1 < fuel"
  shows "update_live fuel react u st =
           Some (st\<lparr>heap_live := fst (produce (heap_live st) (state_live st) u),
                    state_live := snd (produce (heap_live st) (state_live st) u),
                    calls_live := calls_live st @
                      map (\<lambda>fn. (fn, snd (produce (heap_live st) (state_live st) u)))
                        (subscribed st)\<rparr>)"
proof -
  from assms(3) obtain n where fuel: "fuel = Suc n" and n: "length (entries st) < n"
    by (cases fuel) auto
  let ?h = "fst (produce (heap_live st) (state_live st) u)"
  let ?r = "snd (produce (heap_live st) (state_live st) u)"
  let ?st1 = "st\<lparr>heap_live := ?h, state_live := ?r\<rparr>"
  have inert: "\<forall>fn \<in> set (present (drop 0 (entries ?st1))).
                 react fn (heap_live ?st1 ! state_live ?st1) = []"
    using assms(2) by (simp add: subscribed_def)
  have "length (entries ?st1) - 0 < n" using n by simp
  then have "notify_live n react 0 ?st1 =
     Some (?st1\<lparr>calls_live := calls_live ?st1 @
                 map (\<lambda>fn. (fn, state_live ?st1)) (present (drop 0 (entries ?st1)))\<rparr>)"
    using inert by (intro notify_live_inert)
  with assms(1) fuel show ?thesis
    by (simp add: split_def subscribed_def Let_def)
qed

text \<open>
  When the subscribed listeners make no call to the store, lines 19-27 are \<open>update\<close>:
  the run ends, and its result stands for the store that \<open>update\<close> gives. With
  \<open>abstract_subscribe\<close> and \<open>abstract_unsubscribe\<close> this is what makes the first
  definitions a description of the class for such listeners, as the listener of line 201
  is.
\<close>

lemma update_live_agrees:
  assumes "\<forall>fn \<in> set (subscribed st). \<forall>s. react fn s = []"
    and "length (entries st) + 1 < fuel"
  shows "map_option abstract (update_live fuel react u st) = Some (update u (abstract st))"
proof (cases "snd (produce (heap_live st) (state_live st) u) = state_live st")
  case True
  from assms(2) obtain n where "fuel = Suc n" by (cases fuel) auto
  with True show ?thesis
    by (simp add: split_def update_def abstract_def subscribed_def Let_def)
next
  case False
  have "\<forall>fn \<in> set (subscribed st).
           react fn (fst (produce (heap_live st) (state_live st) u)
                       ! snd (produce (heap_live st) (state_live st) u)) = []"
    using assms(1) by simp
  with False assms(2) have "update_live fuel react u st =
           Some (st\<lparr>heap_live := fst (produce (heap_live st) (state_live st) u),
                    state_live := snd (produce (heap_live st) (state_live st) u),
                    calls_live := calls_live st @
                      map (\<lambda>fn. (fn, snd (produce (heap_live st) (state_live st) u)))
                        (subscribed st)\<rparr>)"
    by (intro update_live_inert)
  with False show ?thesis
    by (simp add: update_def abstract_def notify_def split_def subscribed_def Let_def)
qed






section \<open>Properties of the actions\<close>

subsection \<open>The state after each step\<close>

lemma modified_assign_False [simp]: "modified (assign False w d)"
  by (simp add: assign_def)

lemma copy_assign_False [simp]: "copy (assign False w d) = w (copy d)"
  by (simp add: assign_def)

lemma base_assign [simp]: "base (assign same w d) = base d"
  by (simp add: assign_def)

lemma copy_assign_modified [simp]: "modified d \<Longrightarrow> copy (assign same w d) = w (copy d)"
  by (simp add: assign_def)

lemma modified_assign_modified [simp]: "modified d \<Longrightarrow> modified (assign same w d)"
  by (simp add: assign_def)

lemma content_store:
  "content store = \<lparr>saving = False, loading = False,
                     todo = \<lparr>id' = None, title = '''', done' = False\<rparr>, todos = []\<rparr>"
  by (simp add: store_def new_Store_def content_def)

lemma content_fetchTodos_start: "content (fetchTodos_start st) = (content st)\<lparr>loading := True\<rparr>"
  by (cases "content st") (simp add: fetchTodos_start_def content_update assign_def createDraft_def)

lemma content_saveTodo_start: "content (saveTodo_start st) = (content st)\<lparr>saving := True\<rparr>"
  by (cases "content st") (simp add: saveTodo_start_def content_update assign_def createDraft_def)

lemma content_removeTodo_start: "content (removeTodo_start st) = (content st)\<lparr>saving := True\<rparr>"
  by (cases "content st") (simp add: removeTodo_start_def content_update assign_def createDraft_def)

lemma content_fetchTodos_timeout:
  "content (fst (fetchTodos_timeout r1 r2 r3 st)) =
     (content st)\<lparr>todos := [\<lparr>id' = Some r1, title = ''Hello...'', done' = False\<rparr>,
                    \<lparr>id' = Some r2, title = ''World...'', done' = False\<rparr>,
                    \<lparr>id' = Some r3, title = ''Hello World...'', done' = True\<rparr>],
                  loading := False\<rparr>"
  by (simp add: fetchTodos_timeout_def content_update Let_def createDraft_def)

lemma content_saveTodo_timeout:
  "content (fst (saveTodo_timeout r st)) =
     (let s = content st in
      if \<not> truthy (id' (todo s))
      then s\<lparr>todos := todos s @ [(todo s)\<lparr>id' := Some r\<rparr>],
             todo := \<lparr>id' = None, title = '''', done' = False\<rparr>, saving := False\<rparr>
      else s\<lparr>todos := map (\<lambda>item. if id' item = id' (todo s) then todo s else item) (todos s),
             todo := \<lparr>id' = None, title = '''', done' = False\<rparr>, saving := False\<rparr>)"
  by (cases "content st")
    (simp add: saveTodo_timeout_def content_update Let_def createDraft_def assign_def)

lemma content_updateTodo:
  "content (updateTodo p st) =
     (let s = content st; current = spread (todo s) p in
      if truthy (id' current)
      then s\<lparr>todo := current,
             todos := map (\<lambda>item. if id' item = id' current then current else item) (todos s)\<rparr>
      else s\<lparr>todo := current\<rparr>)"
  by (simp add: updateTodo_def content_update Let_def createDraft_def)

lemma content_removeTodo_timeout:
  "content (fst (removeTodo_timeout t st)) =
     (content st)\<lparr>todos := filter (\<lambda>item. id' item \<noteq> id' t) (todos (content st)),
                  todo := \<lparr>id' = None, title = '''', done' = False\<rparr>, saving := False\<rparr>"
  by (simp add: removeTodo_timeout_def content_update Let_def createDraft_def)

lemma content_selectTodo:
  "content (selectTodo same t st) = (if same then content st else (content st)\<lparr>todo := t\<rparr>)"
  by (simp add: selectTodo_def content_update createDraft_def assign_def)

lemma content_editing_store:
  "content editing_store =
     \<lparr>saving = False, loading = False,
      todo = \<lparr>id' = Some (1/4), title = ''World...'', done' = False\<rparr>,
      todos = [\<lparr>id' = Some (1/8), title = ''Hello...'', done' = False\<rparr>,
               \<lparr>id' = Some (1/4), title = ''World...'', done' = False\<rparr>,
               \<lparr>id' = Some (1/2), title = ''Hello World...'', done' = True\<rparr>]\<rparr>"
  by (simp add: editing_store_def content_selectTodo content_fetchTodos_timeout
      content_fetchTodos_start content_store)

lemma content_zero_id_store:
  "content zero_id_store =
     \<lparr>saving = False, loading = False,
      todo = \<lparr>id' = Some 0, title = ''Hello...'', done' = False\<rparr>,
      todos = [\<lparr>id' = Some 0, title = ''Hello...'', done' = False\<rparr>,
               \<lparr>id' = Some (1/4), title = ''World...'', done' = False\<rparr>,
               \<lparr>id' = Some (1/2), title = ''Hello World...'', done' = True\<rparr>]\<rparr>"
  by (simp add: zero_id_store_def content_selectTodo content_fetchTodos_timeout
      content_fetchTodos_start content_store)

lemma content_repeated_id_store:
  "content repeated_id_store =
     \<lparr>saving = False, loading = False,
      todo = \<lparr>id' = Some (1/8), title = ''Hello...'', done' = False\<rparr>,
      todos = [\<lparr>id' = Some (1/8), title = ''Hello...'', done' = False\<rparr>,
               \<lparr>id' = Some (1/4), title = ''World...'', done' = False\<rparr>,
               \<lparr>id' = Some (1/2), title = ''Hello World...'', done' = True\<rparr>,
               \<lparr>id' = Some (1/8), title = '''', done' = False\<rparr>]\<rparr>"
  by (simp add: repeated_id_store_def content_selectTodo content_saveTodo_timeout
      content_saveTodo_start content_fetchTodos_timeout content_fetchTodos_start content_store)

subsection \<open>fetchTodos\<close>

text \<open>
  Claim C4. \<open>fetchTodos()\<close> first sets \<open>loading\<close> to true. When its timer fires, in
  whatever state \<open>st'\<close> the store then is, the callback replaces \<open>todos\<close> with the three
  seed records, sets \<open>loading\<close> to false and resolves the promise: afterwards \<open>todos\<close> has
  exactly 3 entries and \<open>loading\<close> is false.
\<close>

theorem fetchTodos_result:
  "loading (content (fetchTodos_start st)) \<and>
   snd (fetchTodos_timeout r1 r2 r3 st') = Resolved \<and>
   todos (content (fst (fetchTodos_timeout r1 r2 r3 st'))) =
     [\<lparr>id' = Some r1, title = ''Hello...'', done' = False\<rparr>,
      \<lparr>id' = Some r2, title = ''World...'', done' = False\<rparr>,
      \<lparr>id' = Some r3, title = ''Hello World...'', done' = True\<rparr>] \<and>
   length (todos (content (fst (fetchTodos_timeout r1 r2 r3 st')))) = 3 \<and>
   \<not> loading (content (fst (fetchTodos_timeout r1 r2 r3 st')))"
  by (simp add: content_fetchTodos_start content_fetchTodos_timeout)
    (simp add: fetchTodos_timeout_def)

subsection \<open>saveTodo\<close>

text \<open>
  Claim C5. When the todo being edited has no id, \<open>saveTodo()\<close> resolves, and then
  \<open>todos\<close> is one entry longer, the appended entry has the title and the \<open>done\<close> of the
  todo as it was before the save, \<open>todo\<close> is \<open>{title: '', done: false}\<close> and \<open>saving\<close>
  is false. The run is the start of the action followed by its timer's callback.
\<close>

theorem saveTodo_new_result:
  assumes "id' (todo (content st)) = None"
  shows "snd (saveTodo_timeout r (saveTodo_start st)) = Resolved \<and>
         saving (content (saveTodo_start st)) \<and>
         length (todos (content (fst (saveTodo_timeout r (saveTodo_start st)))))
           = length (todos (content st)) + 1 \<and>
         todos (content (fst (saveTodo_timeout r (saveTodo_start st))))
           = todos (content st) @ [(todo (content st))\<lparr>id' := Some r\<rparr>] \<and>
         title (last (todos (content (fst (saveTodo_timeout r (saveTodo_start st))))))
           = title (todo (content st)) \<and>
         done' (last (todos (content (fst (saveTodo_timeout r (saveTodo_start st))))))
           = done' (todo (content st)) \<and>
         todo (content (fst (saveTodo_timeout r (saveTodo_start st))))
           = \<lparr>id' = None, title = '''', done' = False\<rparr> \<and>
         \<not> saving (content (fst (saveTodo_timeout r (saveTodo_start st))))"
proof -
  have res: "snd (saveTodo_timeout r (saveTodo_start st)) = Resolved"
    by (simp add: saveTodo_timeout_def)
  have "content (fst (saveTodo_timeout r (saveTodo_start st))) =
          (content st)\<lparr>todos := todos (content st) @ [(todo (content st))\<lparr>id' := Some r\<rparr>],
                       todo := \<lparr>id' = None, title = '''', done' = False\<rparr>, saving := False\<rparr>"
    using assms by (simp add: content_saveTodo_timeout content_saveTodo_start)
  with res show ?thesis by (simp add: content_saveTodo_start)
qed

text \<open>
  An instance: a title is typed into the empty editor of the global store (line 177) and
  saved.
\<close>

theorem saveTodo_new_result_witness:
  "id' (todo (content (updateTodo \<lparr>id_p = None, title_p = Some ''Tea'', done_p = None\<rparr>
                        (store :: (app_state, unit) Store)))) = None \<and>
   todos (content (fst (saveTodo_timeout (3/4) (saveTodo_start
           (updateTodo \<lparr>id_p = None, title_p = Some ''Tea'', done_p = None\<rparr>
              (store :: (app_state, unit) Store))))))
     = [\<lparr>id' = Some (3/4), title = ''Tea'', done' = False\<rparr>] \<and>
   todo (content (fst (saveTodo_timeout (3/4) (saveTodo_start
           (updateTodo \<lparr>id_p = None, title_p = Some ''Tea'', done_p = None\<rparr>
              (store :: (app_state, unit) Store))))))
     = \<lparr>id' = None, title = '''', done' = False\<rparr>"
  using saveTodo_new_result
    [of "updateTodo \<lparr>id_p = None, title_p = Some ''Tea'', done_p = None\<rparr>
           (store :: (app_state, unit) Store)" "3/4"]
  by (simp add: content_updateTodo content_store spread_def)

text \<open>
  The save of a todo whose id is not 0 and is the id of an entry: \<open>todos\<close> keeps its
  length, every entry with that id becomes the todo being edited, the other entries stay,
  \<open>todo\<close> is the empty draft, \<open>saving\<close> is false and the promise is resolved.
\<close>

lemma saveTodo_existing_result:
  assumes "truthy (id' (todo (content st)))"
    and "id' (todo (content st)) \<in> set (map id' (todos (content st)))"
  shows "snd (saveTodo_timeout r (saveTodo_start st)) = Resolved \<and>
         length (todos (content (fst (saveTodo_timeout r (saveTodo_start st)))))
           = length (todos (content st)) \<and>
         todos (content (fst (saveTodo_timeout r (saveTodo_start st))))
           = map (\<lambda>item. if id' item = id' (todo (content st)) then todo (content st) else item)
               (todos (content st)) \<and>
         todo (content st) \<in> set (todos (content (fst (saveTodo_timeout r (saveTodo_start st))))) \<and>
         todo (content (fst (saveTodo_timeout r (saveTodo_start st))))
           = \<lparr>id' = None, title = '''', done' = False\<rparr> \<and>
         \<not> saving (content (fst (saveTodo_timeout r (saveTodo_start st))))"
proof -
  let ?s = "content st"
  let ?s' = "content (fst (saveTodo_timeout r (saveTodo_start st)))"
  have res: "snd (saveTodo_timeout r (saveTodo_start st)) = Resolved"
    by (simp add: saveTodo_timeout_def)
  have eq: "?s' = ?s\<lparr>todos := map (\<lambda>item. if id' item = id' (todo ?s) then todo ?s else item)
                                  (todos ?s),
                     todo := \<lparr>id' = None, title = '''', done' = False\<rparr>, saving := False\<rparr>"
    using assms(1) by (simp add: content_saveTodo_timeout content_saveTodo_start)
  from assms(2) obtain item where "item \<in> set (todos ?s)" "id' item = id' (todo ?s)"
    by auto
  then have "todo ?s \<in> set (map (\<lambda>item. if id' item = id' (todo ?s) then todo ?s else item)
                              (todos ?s))"
    by force
  with res eq show ?thesis by simp
qed

text \<open>
  Claim C6. When the todo being edited carries an id that an entry of \<open>todos\<close> has, the
  save is to leave the length of \<open>todos\<close> as it is and to replace that entry. The code
  does not do so when the id is 0, a number that \<^verbatim>\<open>Math.random()\<close> can return and that
  the comparisons of lines 69 and 95 treat as any other id: the test \<^verbatim>\<open>!todo.id\<close> of line
  65 takes the todo for a new one. In the run \<open>zero_id_store\<close> the todo being edited and
  the first entry both have id 0, and the save appends a fourth entry under a new id
  instead of replacing the first.
\<close>

theorem saveTodo_zero_id_appends:
  "id' (todo (content zero_id_store)) = Some 0 \<and>
   id' (todos (content zero_id_store) ! 0) = Some 0 \<and>
   length (todos (content zero_id_store)) = 3 \<and>
   length (todos (content (fst (saveTodo_timeout (3/4) (saveTodo_start zero_id_store))))) = 4"
  by (simp add: content_saveTodo_timeout content_saveTodo_start content_zero_id_store)

subsection \<open>updateTodo\<close>

text \<open>
  \<open>updateTodo(partial)\<close> is one update of the store, with no timer. When the todo being
  edited, with \<open>partial\<close> merged into it, has an id that is not 0, then after the call
  \<open>todo\<close> is the merged value and every entry of \<open>todos\<close> with that id is the merged value
  too, the other entries being the same.
\<close>

lemma updateTodo_result:
  assumes "truthy (id' (spread (todo (content st)) p))"
  shows "todo (content (updateTodo p st)) = spread (todo (content st)) p \<and>
         todos (content (updateTodo p st)) =
           map (\<lambda>item. if id' item = id' (spread (todo (content st)) p)
                       then spread (todo (content st)) p else item) (todos (content st)) \<and>
         (\<forall>i < length (todos (content st)).
            id' (todos (content st) ! i) = id' (spread (todo (content st)) p) \<longrightarrow>
            todos (content (updateTodo p st)) ! i = todo (content (updateTodo p st)))"
  using assms by (simp add: content_updateTodo Let_def)

text \<open>
  Claim C8. When the todo being edited has an id that an entry of \<open>todos\<close> has,
  \<open>updateTodo(partial)\<close> is to merge \<open>partial\<close> into \<open>todo\<close> and into that entry within
  the call. The code does not reach the entry when the id is 0, a number that
  \<^verbatim>\<open>Math.random()\<close> can return and that the comparison of line 83 treats as any other id:
  the test \<^verbatim>\<open>if (current.id)\<close> of line 82 skips the propagation. In the run
  \<open>zero_id_store\<close> the todo being edited and the first entry both have id 0, and
  \<open>updateTodo({done: true})\<close> sets \<open>todo.done\<close> while the \<open>done\<close> of the entry stays false.
\<close>

theorem updateTodo_zero_id_not_propagated:
  "id' (todo (content zero_id_store)) = Some 0 \<and>
   id' (todos (content zero_id_store) ! 0) = Some 0 \<and>
   done' (todo (content
      (updateTodo \<lparr>id_p = None, title_p = None, done_p = Some True\<rparr> zero_id_store))) \<and>
   \<not> done' (todos (content
      (updateTodo \<lparr>id_p = None, title_p = None, done_p = Some True\<rparr> zero_id_store)) ! 0)"
  by (simp add: content_updateTodo content_zero_id_store spread_def)

subsection \<open>removeTodo\<close>

text \<open>
  Claim C7. After \<open>removeTodo(t)\<close> has started and its timer has fired, \<open>todos\<close> has no
  entry with the id of \<open>t\<close>, \<open>todo\<close> is the empty draft and \<open>saving\<close> is false; but the
  promise that \<open>removeTodo\<close> returned is still pending, since the callback of lines 92-100
  never calls \<^verbatim>\<open>resolve\<close>, as the callbacks of \<open>fetchTodos\<close> and \<open>saveTodo\<close> do (lines
  52 and 73).
\<close>

theorem removeTodo_promise_pending:
  "snd (removeTodo_timeout t (removeTodo_start st)) = Pending \<and>
   filter (\<lambda>item. id' item = id' t)
     (todos (content (fst (removeTodo_timeout t (removeTodo_start st))))) = [] \<and>
   todo (content (fst (removeTodo_timeout t (removeTodo_start st))))
     = \<lparr>id' = None, title = '''', done' = False\<rparr> \<and>
   \<not> saving (content (fst (removeTodo_timeout t (removeTodo_start st))))"
  by (simp add: content_removeTodo_timeout content_removeTodo_start)
    (simp add: removeTodo_timeout_def)

subsection \<open>At most one entry has the id of the todo being edited\<close>

lemma map_id_replace:
  "map id' (map (\<lambda>item. if id' item = id' c then c else item) xs) = map id' xs"
  by (induction xs) auto

lemma reachable_distinct_ids:
  "reachable st \<Longrightarrow> distinct (map id' (todos (content st)))"
proof (induction rule: reachable.induct)
  case initial
  show ?case by (simp add: content_store)
next
  case (subscribed st l)
  then show ?case by (simp add: content_def subscribe_def)
next
  case (unsubscribed st l)
  then show ?case by (simp add: content_def unsubscribe_def)
next
  case (fetch_started st)
  then show ?case by (simp add: content_fetchTodos_start)
next
  case (fetched st r1 r2 r3)
  then show ?case by (simp add: content_fetchTodos_timeout)
next
  case (save_started st)
  then show ?case by (simp add: content_saveTodo_start)
next
  case (saved_new st r)
  then show ?case by (simp add: content_saveTodo_timeout Let_def)
next
  case (saved_existing st r)
  then show ?case by (simp add: content_saveTodo_timeout Let_def map_id_replace del: map_map)
next
  case (updated st p)
  then show ?case by (simp add: content_updateTodo Let_def map_id_replace del: map_map)
next
  case (remove_started st)
  then show ?case by (simp add: content_removeTodo_start)
next
  case (removed st t)
  then show ?case by (simp add: content_removeTodo_timeout distinct_map_filter)
next
  case (selected st same t)
  then show ?case by (simp add: content_selectTodo)
qed

lemma distinct_keys_filter_le_1:
  "distinct (map f xs) \<Longrightarrow> length (filter (\<lambda>x. f x = k) xs) \<le> 1"
proof (induction xs)
  case Nil
  show ?case by simp
next
  case (Cons x xs)
  show ?case
  proof (cases "f x = k")
    case True
    with Cons.prems have "k \<notin> f ` set xs" by simp
    then have "\<forall>y \<in> set xs. f y \<noteq> k" by blast
    then have "filter (\<lambda>x. f x = k) xs = []" by (simp add: filter_empty_conv)
    with True show ?thesis by simp
  next
    case False
    with Cons show ?thesis by simp
  qed
qed

text \<open>
  Claim C9, as amended. Provided every id that \<^verbatim>\<open>Math.random()\<close> returns is new (the three
  ids of a fetch differ, and the id of a saved new todo is not yet in \<open>todos\<close>), every state
  the store reaches has at most one entry of \<open>todos\<close> with the id of the todo being edited;
  indeed the ids of \<open>todos\<close> are then pairwise different, which every operation preserves.
\<close>

theorem reachable_at_most_one_shares_id:
  "reachable st \<Longrightarrow> length (sharing (content st)) \<le> 1"
  unfolding sharing_def by (rule distinct_keys_filter_le_1) (rule reachable_distinct_ids)

text \<open>
  Claim C9 as stated fails when \<^verbatim>\<open>Math.random()\<close> repeats a value: after a fetch with the
  ids 1/8, 1/4, 1/2, the save of a new todo that draws 1/8 again appends a second entry
  with that id (line 67 does not look at the ids in \<open>todos\<close>), and selecting the first
  entry leaves two entries with the id of the todo being edited.
\<close>

theorem repeated_id_shared_twice:
  "\<not> length (sharing (content repeated_id_store)) \<le> 1"
  by (simp add: sharing_def content_repeated_id_store)

text \<open>An instance of the amended claim: the run \<open>editing_store\<close>, whose ids are all new.\<close>

theorem reachable_at_most_one_shares_id_witness:
  "reachable editing_store \<and> length (sharing (content editing_store)) \<le> 1"
proof -
  have "reachable (fetchTodos_start (store :: (app_state, unit) Store))"
    by (intro reachable.fetch_started reachable.initial)
  then have "reachable (fst (fetchTodos_timeout (1/8) (1/4) (1/2)
                              (fetchTodos_start (store :: (app_state, unit) Store))))"
    by (rule reachable.fetched) simp
  then have r: "reachable editing_store"
    unfolding editing_store_def by (rule reachable.selected)
  from r reachable_at_most_one_shares_id [OF r] show ?thesis by simp
qed

end
